theory Spec2Isabelle
  imports Main "HOL-Library.Sublist" "HOL-Library.Word"
begin

unbundle bit_operations_syntax

section \<open>C strings and the libc string functions used by server.c\<close>

text \<open>
  A \<open>char *\<close> is embedded as the list of bytes it points to. The C string it denotes
  ends before the first NUL byte; \<open>cstr\<close> reads it. A NULL pointer is \<open>None\<close>.
\<close>

type_synonym bytes = string

definition NUL :: char where
  "NUL = CHR 0x00"

definition CR :: char where
  "CR = CHR 0x0D"

definition LF :: char where
  "LF = CHR 0x0A"

definition SP :: char where
  "SP = CHR '' ''"

definition cstr :: "bytes \<Rightarrow> string" where
  "cstr bs = takeWhile (\<lambda>c. c \<noteq> NUL) bs"

text \<open>\<open>strncmp(a, b, n)\<close>: compares at most \<open>n\<close> bytes and stops behind a NUL; the byte
  read at the end of a list is the terminator. The result is the difference of the first
  pair of bytes that differ, 0 when there is none.\<close>

definition byte_at_head :: "bytes \<Rightarrow> char" where
  "byte_at_head s = (case s of [] \<Rightarrow> NUL | c # cs \<Rightarrow> c)"

fun strncmp :: "bytes \<Rightarrow> bytes \<Rightarrow> nat \<Rightarrow> int" where
  "strncmp a b n =
     (if n = 0 then 0
      else if byte_at_head a \<noteq> byte_at_head b
           then int (of_char (byte_at_head a)) - int (of_char (byte_at_head b))
      else if byte_at_head a = NUL then 0
      else strncmp (tl a) (tl b) (n - 1))"

declare strncmp.simps [simp del]

text \<open>\<open>strstr(haystack, needle)\<close>: the suffix of the haystack that starts at the first
  occurrence of the needle, \<open>None\<close> (NULL) when there is none.\<close>

fun strstr :: "string \<Rightarrow> string \<Rightarrow> string option" where
  "strstr [] needle = (if needle = [] then Some [] else None)"
| "strstr (h # hs) needle =
     (if prefix needle (h # hs) then Some (h # hs) else strstr hs needle)"

text \<open>\<open>strtok(s, " ")\<close>: skips leading delimiters; NULL when nothing is left, otherwise
  the token up to the next delimiter, together with the position saved for the next call
  (just behind the delimiter that ended the token, or the end of the string).\<close>

definition strtok :: "string \<Rightarrow> char \<Rightarrow> (string \<times> string) option" where
  "strtok s delim =
     (let s1 = dropWhile (\<lambda>c. c = delim) s
      in if s1 = [] then None
         else Some (takeWhile (\<lambda>c. c \<noteq> delim) s1,
                    drop 1 (dropWhile (\<lambda>c. c \<noteq> delim) s1)))"

text \<open>\<open>strncpy(dest, src, n)\<close> into a buffer that \<open>memset\<close> has zeroed and that is longer
  than \<open>n\<close>: the buffer then holds the first \<open>n\<close> bytes of \<open>src\<close>, NUL-terminated.\<close>

definition strncpy :: "string \<Rightarrow> nat \<Rightarrow> string" where
  "strncpy src n = take n src"

definition isspace :: "char \<Rightarrow> bool" where
  "isspace c = (c = SP \<or> (9::nat) \<le> of_char c \<and> of_char c \<le> (13::nat))"

definition isdigit :: "char \<Rightarrow> bool" where
  "isdigit c = ((48::nat) \<le> of_char c \<and> of_char c \<le> (57::nat))"

definition digit_val :: "char \<Rightarrow> nat" where
  "digit_val c = of_char c - 48"

definition decimal :: "string \<Rightarrow> nat" where
  "decimal ds = foldl (\<lambda>acc c. acc * 10 + digit_val c) 0 ds"

definition digit_char :: "nat \<Rightarrow> char" where
  "digit_char d = char_of (48 + d)"

text \<open>The conversions \<open>%zu\<close> and \<open>%d\<close> of \<open>snprintf\<close>.\<close>

fun print_nat :: "nat \<Rightarrow> string" where
  "print_nat n = (if n < 10 then [digit_char n] else print_nat (n div 10) @ [digit_char (n mod 10)])"

declare print_nat.simps [simp del]

definition print_int :: "int \<Rightarrow> string" where
  "print_int i = (if i < 0 then CHR ''-'' # print_nat (nat (- i)) else print_nat (nat i))"

text \<open>A sign followed by digits, as \<open>strtol\<close>, \<open>strtoul\<close> and the integer conversions
  of \<open>sscanf\<close> read them after skipping white space: whether a minus sign was read, and
  the digits.\<close>

definition scan_sign_digits :: "string \<Rightarrow> bool \<times> string" where
  "scan_sign_digits s =
     (let s1 = dropWhile isspace s
      in case s1 of
           [] \<Rightarrow> (False, [])
         | c # cs \<Rightarrow>
             if c = CHR ''-'' then (True, takeWhile isdigit cs)
             else if c = CHR ''+'' then (False, takeWhile isdigit cs)
             else (False, takeWhile isdigit s1))"

definition SIZE_MAX :: nat where
  "SIZE_MAX = 2 ^ 64 - 1"

text \<open>\<open>sscanf(start, "Content-Length: %zu", &n)\<close>: \<open>None\<close> when nothing is assigned.
  The value is read as \<open>strtoul\<close> reads it on an LP64 platform: a value beyond
  \<open>SIZE_MAX\<close> is \<open>SIZE_MAX\<close>, a minus sign negates modulo \<open>2 ^ 64\<close>.\<close>

definition sscanf_content_length :: "string \<Rightarrow> nat option" where
  "sscanf_content_length start =
     (if \<not> prefix ''Content-Length:'' start then None
      else case scan_sign_digits (drop 15 start) of
             (neg, ds) \<Rightarrow>
               if ds = [] then None
               else let v = decimal ds
                    in Some (if v > SIZE_MAX then SIZE_MAX
                             else if neg then (2 ^ 64 - v) mod 2 ^ 64
                             else v))"

section \<open>File Loader\<close>

text \<open>
  The file system is a parameter: a name is either absent (\<open>fopen\<close> fails) or a file
  with its contents and the number of bytes \<open>fread\<close> is able to deliver. An allocation
  (\<open>malloc\<close>, \<open>strdup\<close>) is taken to succeed unless the size asked for cannot exist.
\<close>

record file_entry =
  contents :: bytes
  fread_limit :: nat

type_synonym filesystem = "string \<Rightarrow> file_entry option"

definition ReadFile :: "filesystem \<Rightarrow> string \<Rightarrow> (bytes \<times> int) option" where
  "ReadFile fs filename =
     (case fs filename of
        None \<Rightarrow> None
      | Some f \<Rightarrow>
          let file_size = length (contents f);
              bytes_read = min file_size (fread_limit f)
          in if bytes_read \<noteq> file_size then None
             else Some (contents f, int file_size))"

section \<open>Data model\<close>

definition MAX_METHOD_SIZE :: nat where
  "MAX_METHOD_SIZE = 10"

definition MAX_PATH_SIZE :: nat where
  "MAX_PATH_SIZE = 100"

text \<open>\<open>body\<close> is a pointer: \<open>None\<close> is NULL, \<open>Some b\<close> a buffer holding the C string \<open>b\<close>.\<close>

record HttpRequest =
  "method" :: string
  path :: string
  body :: "string option"
  body_size :: nat

text \<open>\<open>content\<close> holds the bytes of the buffer; a terminating NUL follows them.\<close>

record HttpResponse =
  status_code :: int
  status_message :: string
  content_length :: nat
  content :: bytes

text \<open>The \<open>callback\<close> member of a route is NULL in every entry and never read.\<close>

record RouteMapping =
  route_path :: string
  route_link :: string

definition getRouteMappings :: "RouteMapping list" where
  "getRouteMappings =
     [\<lparr>route_path = ''/'', route_link = ''./public_html/index.html''\<rparr>,
      \<lparr>route_path = ''/test'', route_link = ''./public_html/test.html''\<rparr>]"

text \<open>The way in which the code can leave defined behaviour: a read or a write through a
  NULL pointer.\<close>

datatype fault = NullDereference

section \<open>Request Parser\<close>

text \<open>\<open>sizeof(http->body)\<close> is the size of a pointer (LP64).\<close>

definition sizeof_body :: nat where
  "sizeof_body = 8"

text \<open>The two calls \<open>strtok(request_copy, " ")\<close> and \<open>strtok(NULL, " ")\<close>.\<close>

definition method_path_tokens :: "string \<Rightarrow> string option \<times> string option" where
  "method_path_tokens request_copy =
     (case strtok request_copy SP of
        None \<Rightarrow> (None, None)
      | Some (method_tok, rest) \<Rightarrow> (Some method_tok, map_option fst (strtok rest SP)))"

text \<open>The result is \<open>Inr None\<close> for a NULL return, \<open>Inr (Some http)\<close> for a request and
  \<open>Inl NullDereference\<close> where the code writes through the NULL pointer \<open>http->body\<close>.\<close>

definition parseHttpRequest :: "bytes option \<Rightarrow> fault + HttpRequest option" where
  "parseHttpRequest request =
     (case request of
        None \<Rightarrow> Inr None
      | Some raw \<Rightarrow>
          let req = cstr raw;
              http = \<lparr>method = [], path = [], body = None, body_size = 0\<rparr>
          in (case method_path_tokens req of
               (Some method_tok, Some path_tok) \<Rightarrow>
                 let http = http\<lparr>method := strncpy method_tok (MAX_METHOD_SIZE - 1),
                                 path := strncpy path_tok (MAX_PATH_SIZE - 1)\<rparr>
                 in (case strstr req ''Content-Length:'' of
                       None \<Rightarrow> Inr (Some http)
                     | Some start \<Rightarrow>
                         let http = (case sscanf_content_length start of
                                       None \<Rightarrow> http
                                     | Some n \<Rightarrow> http\<lparr>body_size := n\<rparr>)
                         in (case strstr req [CR, LF, CR, LF] of
                               None \<Rightarrow> Inr (Some http)
                             | Some sep \<Rightarrow>
                                 let start = drop 4 sep;
                                     available_space = sizeof_body - 1;
                                     copy_size = (if body_size http < available_space
                                                  then body_size http else available_space)
                                 in (case body http of
                                       None \<Rightarrow> Inl NullDereference
                                     | Some buf \<Rightarrow>
                                         Inr (Some (http\<lparr>body := Some (strncpy start copy_size)\<rparr>)))))
             | _ \<Rightarrow> Inr (Some http)))"

section \<open>Response Builder\<close>

text \<open>The text that the format string of \<open>HttpResponseToString\<close> produces; \<open>%s\<close> prints a
  C string, that is, the bytes before the first NUL.\<close>

definition response_format :: "HttpResponse \<Rightarrow> string" where
  "response_format response =
     ''HTTP/1.1 '' @ print_int (status_code response) @ '' '' @ cstr (status_message response)
     @ [CR, LF] @ ''Content-Type: text/html;charset=UTF-8'' @ [CR, LF]
     @ ''Content-Length: '' @ print_nat (content_length response) @ [CR, LF, CR, LF]
     @ cstr (content response)"

definition INT_MAX :: nat where
  "INT_MAX = 2147483647"

text \<open>\<open>snprintf\<close> returns the length of the formatted text, or a negative value when that
  length is not representable in an \<open>int\<close>.\<close>

definition snprintf_length :: "string \<Rightarrow> int" where
  "snprintf_length s = (if length s \<le> INT_MAX then int (length s) else - 1)"

text \<open>Arithmetic in \<open>int\<close> wraps around at 32 bits.\<close>

definition int_wrap :: "int \<Rightarrow> int" where
  "int_wrap x = (x + 2 ^ 31) mod 2 ^ 32 - 2 ^ 31"

text \<open>The result is the string and the value stored in \<open>*size\<close>, \<open>None\<close> for NULL. The
  size asked of \<open>malloc\<close> is \<open>total_length + 1\<close>, computed in \<open>int\<close>: at \<open>INT_MAX\<close> the sum is
  negative, which as a \<open>size_t\<close> is more than can be allocated, and \<open>malloc\<close> returns
  NULL.\<close>

definition HttpResponseToString :: "HttpResponse \<Rightarrow> (string \<times> int) option" where
  "HttpResponseToString response =
     (let total_length = snprintf_length (response_format response)
      in if total_length < 0 then None
         else if int_wrap (total_length + 1) < 0 then None
         else Some (response_format response, total_length))"

section \<open>Request Dispatcher\<close>

text \<open>The \<open>for\<close> loop of \<open>handleGetRequest\<close> over the route table, from entry \<open>i\<close> on;
  \<open>break\<close> ends the recursion.\<close>

fun route_loop :: "filesystem \<Rightarrow> HttpRequest \<Rightarrow> RouteMapping list \<Rightarrow> HttpResponse \<Rightarrow> HttpResponse" where
  "route_loop fs request [] response = response"
| "route_loop fs request (m # ms) response =
     (if strncmp (path request) (route_path m) MAX_PATH_SIZE = 0
      then (let response = response\<lparr>status_code := 200, status_message := ''OK''\<rparr>
            in case ReadFile fs (route_link m) of
                 Some (file_contents, file_size) \<Rightarrow>
                   response\<lparr>content_length := nat file_size, content := file_contents\<rparr>
               | None \<Rightarrow>
                   response\<lparr>status_code := 500, status_message := ''Internal Server Error''\<rparr>)
      else route_loop fs request ms response)"

text \<open>The local variable \<open>response\<close> of \<open>handleGetRequest\<close> when the loop has ended.\<close>

definition get_response :: "filesystem \<Rightarrow> HttpRequest \<Rightarrow> HttpResponse" where
  "get_response fs request =
     route_loop fs request getRouteMappings
       \<lparr>status_code = 404, status_message = ''Not Found'', content_length = 0, content = []\<rparr>"

text \<open>\<open>handleGetRequest\<close> returns the bytes it passes to \<open>send\<close>, the first \<open>size\<close>
  bytes of the message. When the response builder returns NULL, nothing can be sent from
  that pointer, and the code goes on to read through it in
  \<open>printStringWithEscapeChars\<close>.\<close>

definition handleGetRequest :: "filesystem \<Rightarrow> HttpRequest \<Rightarrow> fault + bytes" where
  "handleGetRequest fs request =
     (case HttpResponseToString (get_response fs request) of
        None \<Rightarrow> Inl NullDereference
      | Some (response_message, total_length) \<Rightarrow>
          Inr (take (nat total_length) response_message))"

text \<open>What a connection observes of \<open>handleHttpRequest\<close>: the bytes sent to the client, or
  the method reported as unsupported on standard error with nothing sent.\<close>

datatype action = Responded bytes | Unsupported_method string

definition handleHttpRequest :: "filesystem \<Rightarrow> HttpRequest option \<Rightarrow> fault + action" where
  "handleHttpRequest fs request =
     (case request of
        None \<Rightarrow> Inl NullDereference
      | Some r \<Rightarrow>
          if strncmp (method r) ''GET'' 3 = 0
          then map_sum id Responded (handleGetRequest fs r)
          else Inr (Unsupported_method (cstr (method r))))"

text \<open>One pass of the accept loop of \<open>startHttpServer\<close> after a successful \<open>recv\<close>, on the
  bytes received (fewer than the 30000 bytes of the zeroed buffer, which therefore ends
  them with a NUL).\<close>

definition serve_connection :: "filesystem \<Rightarrow> bytes \<Rightarrow> fault + action" where
  "serve_connection fs buffer =
     (case parseHttpRequest (Some buffer) of
        Inl f \<Rightarrow> Inl f
      | Inr http \<Rightarrow> handleHttpRequest fs http)"

section \<open>Command line\<close>

text \<open>
  \<open>inet_pton\<close> and the success of \<open>socket\<close>, \<open>bind\<close> and \<open>listen\<close> belong to the
  platform and are parameters.
\<close>

record platform =
  inet_pton :: "string \<Rightarrow> 32 word option"
  socket_ok :: bool
  bind_ok :: bool
  listen_ok :: bool

definition LONG_MAX :: int where
  "LONG_MAX = 2 ^ 63 - 1"

text \<open>\<open>strtol(s, NULL, 10)\<close>, out-of-range values clamped, and \<open>atoi\<close>, its result
  converted to \<open>int\<close>.\<close>

definition strtol :: "string \<Rightarrow> int" where
  "strtol s =
     (case scan_sign_digits s of
        (neg, ds) \<Rightarrow>
          let v = int (decimal ds)
          in if neg then max (- LONG_MAX - 1) (- v) else min LONG_MAX v)"

definition atoi :: "string \<Rightarrow> int" where
  "atoi s = sint (word_of_int (strtol s) :: 32 word)"

text \<open>\<open>htons\<close> on a little-endian host.\<close>

definition htons :: "16 word \<Rightarrow> 16 word" where
  "htons x = push_bit 8 x OR drop_bit 8 x"

datatype run = Returns int | Serves_forever "32 word" "16 word"

definition EXIT_FAILURE :: int where
  "EXIT_FAILURE = 1"

definition EXIT_SUCCESS :: int where
  "EXIT_SUCCESS = 0"

text \<open>\<open>startHttpServer\<close> returns -1 when the socket cannot be set up; otherwise it
  enters \<open>while (1)\<close>, which has no exit.\<close>

definition startHttpServer :: "platform \<Rightarrow> 32 word \<Rightarrow> 16 word \<Rightarrow> run" where
  "startHttpServer pf addr port =
     (if \<not> socket_ok pf then Returns (- 1)
      else if \<not> bind_ok pf then Returns (- 1)
      else if \<not> listen_ok pf then Returns (- 1)
      else Serves_forever addr port)"

definition main :: "platform \<Rightarrow> string list \<Rightarrow> run" where
  "main pf argv =
     (if length argv \<noteq> 3 then Returns EXIT_FAILURE
      else let ipAddressStr = argv ! 1; portStr = argv ! 2
           in case inet_pton pf ipAddressStr of
                None \<Rightarrow> Returns EXIT_FAILURE
              | Some addr \<Rightarrow>
                  let port = (word_of_int (atoi portStr) :: 16 word)
                  in if port \<le> 0 \<or> port > 65534 then Returns EXIT_FAILURE
                     else (case startHttpServer pf addr (htons port) of
                             Returns result \<Rightarrow>
                               if result = - 1 then Returns EXIT_FAILURE else Returns EXIT_SUCCESS
                           | Serves_forever a p \<Rightarrow> Serves_forever a p))"

section \<open>Round trip of the Content-Length field\<close>

text \<open>
  The round trip asked of the response builder, stated with the parser's own steps: the
  \<open>Content-Length\<close> field of a serialised response is read back as the parser reads it
  (\<open>strstr\<close> for the header name, then \<open>sscanf\<close>), and the content portion is what
  follows the first blank line. The round trip holds for a response when its
  serialisation succeeds and the field read back is the length of the content portion.
\<close>

definition reparse_content_length :: "string \<Rightarrow> nat option" where
  "reparse_content_length out =
     (case strstr out ''Content-Length:'' of
        None \<Rightarrow> None
      | Some start \<Rightarrow> sscanf_content_length start)"

definition content_portion :: "string \<Rightarrow> string option" where
  "content_portion out =
     (case strstr out [CR, LF, CR, LF] of
        None \<Rightarrow> None
      | Some sep \<Rightarrow> Some (drop 4 sep))"

definition content_length_roundtrip :: "HttpResponse \<Rightarrow> bool" where
  "content_length_roundtrip response =
     (case HttpResponseToString response of
        None \<Rightarrow> False
      | Some (out, total_length) \<Rightarrow>
          (case (reparse_content_length out, content_portion out) of
             (Some n, Some portion) \<Rightarrow> n = length portion
           | _ \<Rightarrow> False))"

section \<open>Example inputs\<close>

text \<open>A file system that holds the index page and nothing else.\<close>

definition example_fs :: filesystem where
  "example_fs name =
     (if name = ''./public_html/index.html''
      then Some \<lparr>contents = ''<h1>It works</h1>'', fread_limit = 4096\<rparr>
      else None)"

text \<open>A platform on which the loopback address parses and the socket can be set up.\<close>

definition example_platform :: platform where
  "example_platform =
     \<lparr>inet_pton = (\<lambda>s. if s = ''127.0.0.1'' then Some 0x0100007F else None),
      socket_ok = True, bind_ok = True, listen_ok = True\<rparr>"

text \<open>Two requests whose paths are 100 bytes long and differ in the last byte only.\<close>

definition long_request_b :: bytes where
  "long_request_b = ''GETTYSBURG /'' @ replicate 98 (CHR ''a'') @ ''b HTTP/1.1'' @ [CR, LF, CR, LF]"

definition long_request_c :: bytes where
  "long_request_c = ''GET /'' @ replicate 98 (CHR ''a'') @ ''c HTTP/1.1'' @ [CR, LF, CR, LF]"

text \<open>A response whose content has a NUL byte in the middle, and a file system that makes
  the dispatcher produce it.\<close>

definition nul_response :: HttpResponse where
  "nul_response =
     \<lparr>status_code = 200, status_message = ''OK'', content_length = 3,
      content = [CHR ''A'', NUL, CHR ''B'']\<rparr>"

definition nul_fs :: filesystem where
  "nul_fs name =
     (if name = ''./public_html/index.html''
      then Some \<lparr>contents = [CHR ''A'', NUL, CHR ''B''], fread_limit = 4096\<rparr>
      else None)"

text \<open>Two responses whose status message holds a line break, or the header name.\<close>

definition split_status_response :: HttpResponse where
  "split_status_response =
     \<lparr>status_code = 200, status_message = ''OK'' @ [CR, LF], content_length = 0, content = []\<rparr>"

definition header_status_response :: HttpResponse where
  "header_status_response =
     \<lparr>status_code = 200, status_message = ''Content-Length: 7'', content_length = 0,
      content = []\<rparr>"

section \<open>Facts about the string functions\<close>

lemma cstr_Nil [simp]: "cstr [] = []"
  by (simp add: cstr_def)

lemma cstr_Cons: "cstr (c # cs) = (if c = NUL then [] else c # cstr cs)"
  by (simp add: cstr_def)

lemma cstr_no_NUL: "NUL \<notin> set s \<Longrightarrow> cstr s = s"
  by (induction s) (auto simp: cstr_Cons)

lemma NUL_notin_cstr: "NUL \<notin> set (cstr s)"
  by (induction s) (auto simp: cstr_Cons)

text \<open>\<open>strncmp\<close> returns 0 exactly when the two C strings agree on their first \<open>n\<close> bytes.\<close>

lemma strncmp_eq_0_iff: "strncmp a b n = 0 \<longleftrightarrow> take n (cstr a) = take n (cstr b)"
proof (induction a b n rule: strncmp.induct)
  case (1 a b n)
  show ?case
  proof (cases "n = 0")
    case True
    then show ?thesis by (simp add: strncmp.simps)
  next
    case False
    then obtain k where n: "n = Suc k" by (cases n) auto
    show ?thesis
    proof (cases "byte_at_head a = byte_at_head b")
      case diff: False
      then have "strncmp a b n \<noteq> 0"
        using False by (subst strncmp.simps) simp
      moreover have "take n (cstr a) \<noteq> take n (cstr b)"
        using diff n by (cases a; cases b) (auto simp: byte_at_head_def cstr_Cons)
      ultimately show ?thesis by simp
    next
      case same: True
      show ?thesis
      proof (cases "byte_at_head a = NUL")
        case True
        then have "strncmp a b n = 0"
          using False same by (subst strncmp.simps) simp
        moreover have "cstr a = []" "cstr b = []"
          using True same by (cases a; cases b; auto simp: byte_at_head_def cstr_Cons)+
        ultimately show ?thesis by simp
      next
        case nz: False
        then obtain x xs ys where ab: "a = x # xs" "b = x # ys" "x \<noteq> NUL"
          using same by (cases a; cases b) (auto simp: byte_at_head_def)
        have "strncmp a b n = strncmp (tl a) (tl b) (n - 1)"
          using False same nz by (subst strncmp.simps) simp
        also have "\<dots> = 0 \<longleftrightarrow> take (n - 1) (cstr (tl a)) = take (n - 1) (cstr (tl b))"
          using "1.IH" False same nz by simp
        finally show ?thesis using ab n by (simp add: cstr_Cons)
      qed
    qed
  qed
qed

section \<open>Facts about the File Loader and the route scan\<close>

lemma ReadFile_None_iff:
  "ReadFile fs filename = None \<longleftrightarrow>
   (fs filename = None \<or> (\<exists>f. fs filename = Some f \<and> fread_limit f < length (contents f)))"
  by (auto simp: ReadFile_def Let_def split: option.splits)

lemma ReadFile_Some:
  "fs filename = Some f \<Longrightarrow> length (contents f) \<le> fread_limit f \<Longrightarrow>
   ReadFile fs filename = Some (contents f, int (length (contents f)))"
  by (simp add: ReadFile_def Let_def)

lemma route_loop_no_match:
  "\<forall>m\<in>set ms. strncmp (path request) (route_path m) MAX_PATH_SIZE \<noteq> 0 \<Longrightarrow>
   route_loop fs request ms response = response"
  by (induction ms) auto

text \<open>No two entries of the table match the same path, so a matching entry is the one
  the scan stops at.\<close>

lemma route_loop_table:
  "m \<in> set getRouteMappings \<Longrightarrow> strncmp (path request) (route_path m) MAX_PATH_SIZE = 0 \<Longrightarrow>
   route_loop fs request getRouteMappings response =
     (case ReadFile fs (route_link m) of
        Some (file_contents, file_size) \<Rightarrow>
          response\<lparr>status_code := 200, status_message := ''OK'',
                    content_length := nat file_size, content := file_contents\<rparr>
      | None \<Rightarrow> response\<lparr>status_code := 500, status_message := ''Internal Server Error''\<rparr>)"
  by (auto simp: getRouteMappings_def strncmp_eq_0_iff MAX_PATH_SIZE_def cstr_Cons NUL_def
      split: option.splits)

lemma print_int_200: "print_int 200 = ''200''"
  by code_simp

lemma print_int_404: "print_int 404 = ''404''"
  by code_simp

lemma print_int_500: "print_int 500 = ''500''"
  by code_simp

lemma print_nat_0: "print_nat 0 = ''0''"
  by code_simp

lemma print_nat_3: "print_nat 3 = ''3''"
  by code_simp

lemma print_nat_17: "print_nat 17 = ''17''"
  by code_simp

section \<open>Facts about the Response Builder\<close>

lemma int_wrap_in_range: "- (2 ^ 31) \<le> x \<Longrightarrow> x < 2 ^ 31 \<Longrightarrow> int_wrap x = x"
  by (simp add: int_wrap_def)

text \<open>A response is serialised exactly when its serialised form is shorter than
  \<open>INT_MAX\<close> bytes.\<close>

lemma serialised:
  assumes "length (response_format r) < INT_MAX"
  shows "HttpResponseToString r = Some (response_format r, int (length (response_format r)))"
proof -
  have "int_wrap (int (length (response_format r)) + 1) = int (length (response_format r)) + 1"
    using assms by (intro int_wrap_in_range) (simp_all add: INT_MAX_def)
  then show ?thesis
    using assms by (simp add: HttpResponseToString_def snprintf_length_def Let_def)
qed

lemma not_serialised:
  assumes "INT_MAX \<le> length (response_format r)"
  shows "HttpResponseToString r = None"
proof (cases "length (response_format r) = INT_MAX")
  case True
  have "int_wrap (int INT_MAX + 1) < 0"
    by (simp add: int_wrap_def INT_MAX_def)
  then show ?thesis
    using True by (simp add: HttpResponseToString_def snprintf_length_def Let_def)
next
  case False
  with assms show ?thesis
    by (simp add: HttpResponseToString_def snprintf_length_def Let_def)
qed

text \<open>What the dispatcher sends is the serialised response; when there is none, it
  faults.\<close>

lemma handleGetRequest_sends:
  "length (response_format (get_response fs request)) < INT_MAX \<Longrightarrow>
   handleGetRequest fs request = Inr (response_format (get_response fs request))"
  by (simp add: handleGetRequest_def serialised)

lemma handleGetRequest_faults:
  "INT_MAX \<le> length (response_format (get_response fs request)) \<Longrightarrow>
   handleGetRequest fs request = Inl NullDereference"
  by (simp add: handleGetRequest_def not_serialised)

lemma nul_response_format:
  "response_format nul_response =
     ''HTTP/1.1 200 OK'' @ [CR, LF] @ ''Content-Type: text/html;charset=UTF-8'' @ [CR, LF]
     @ ''Content-Length: 3'' @ [CR, LF, CR, LF] @ ''A''"
  by (simp add: response_format_def nul_response_def print_int_200 print_nat_3 cstr_Cons NUL_def)

text \<open>The dispatcher builds \<open>nul_response\<close> for a routed file that holds a NUL byte.\<close>

lemma nul_response_served:
  "get_response nul_fs \<lparr>method = ''GET'', path = ''/'', body = None, body_size = 0\<rparr> = nul_response"
  by (simp add: get_response_def getRouteMappings_def strncmp_eq_0_iff ReadFile_def
      nul_fs_def nul_response_def Let_def)

section \<open>The dispatcher's three outcomes\<close>

text \<open>The response that the dispatcher builds for a routed file that can be read in full
  has the file's bytes as content and the file's size as content_length.\<close>

lemma routed_file_200:
  assumes "m \<in> set getRouteMappings"
    and "path request = route_path m"
    and "fs (route_link m) = Some f"
    and "length (contents f) \<le> fread_limit f"
  shows "get_response fs request =
           \<lparr>status_code = 200, status_message = ''OK'',
            content_length = length (contents f), content = contents f\<rparr>"
proof -
  have "strncmp (path request) (route_path m) MAX_PATH_SIZE = 0"
    using assms(2) by (simp add: strncmp_eq_0_iff)
  with assms(1) show ?thesis
    unfolding get_response_def
    using ReadFile_Some [of fs "route_link m" f] assms(3,4)
    by (simp add: route_loop_table)
qed

text \<open>When the file holds no NUL byte and the serialised response is shorter than
  \<open>INT_MAX\<close> bytes, the body sent is the file.\<close>

lemma routed_file_sent:
  assumes "m \<in> set getRouteMappings"
    and "path request = route_path m"
    and "fs (route_link m) = Some f"
    and "length (contents f) \<le> fread_limit f"
    and "NUL \<notin> set (contents f)"
    and "length (response_format (get_response fs request)) < INT_MAX"
  shows "handleGetRequest fs request =
           Inr (''HTTP/1.1 200 OK'' @ [CR, LF]
                @ ''Content-Type: text/html;charset=UTF-8'' @ [CR, LF]
                @ ''Content-Length: '' @ print_nat (length (contents f)) @ [CR, LF, CR, LF]
                @ contents f)"
proof -
  have r: "get_response fs request =
           \<lparr>status_code = 200, status_message = ''OK'',
            content_length = length (contents f), content = contents f\<rparr>"
    using assms(1-4) by (rule routed_file_200)
  have "handleGetRequest fs request = Inr (response_format (get_response fs request))"
    using assms(6) by (rule handleGetRequest_sends)
  then show ?thesis
    by (simp add: r response_format_def print_int_200 cstr_no_NUL [OF assms(5)] cstr_Cons NUL_def)
qed

text \<open>
  C1. For a request whose path is a route's path and whose routed file exists and can be
  read, the body of the response is to equal the file's contents byte for byte. The file
  \<open>A NUL B\<close> is read in full and the response built holds its three bytes with
  content_length 3; the response sent announces three bytes and carries the one byte
  \<open>A\<close>.
\<close>

theorem nul_file_body_cut:
  "nul_fs ''./public_html/index.html'' =
     Some \<lparr>contents = [CHR ''A'', NUL, CHR ''B''], fread_limit = 4096\<rparr>
   \<and> get_response nul_fs \<lparr>method = ''GET'', path = ''/'', body = None, body_size = 0\<rparr> =
       \<lparr>status_code = 200, status_message = ''OK'', content_length = 3,
        content = [CHR ''A'', NUL, CHR ''B'']\<rparr>
   \<and> handleGetRequest nul_fs \<lparr>method = ''GET'', path = ''/'', body = None, body_size = 0\<rparr> =
       Inr (''HTTP/1.1 200 OK'' @ [CR, LF]
            @ ''Content-Type: text/html;charset=UTF-8'' @ [CR, LF]
            @ ''Content-Length: 3'' @ [CR, LF, CR, LF] @ ''A'')"
proof -
  let ?request = "\<lparr>method = ''GET'', path = ''/'', body = None, body_size = 0\<rparr>"
  have "handleGetRequest nul_fs ?request = Inr (response_format (get_response nul_fs ?request))"
    by (rule handleGetRequest_sends)
      (simp add: nul_response_served nul_response_format INT_MAX_def)
  then have "handleGetRequest nul_fs ?request = Inr (response_format nul_response)"
    by (simp only: nul_response_served)
  then show ?thesis
    using nul_response_served
    by (simp add: nul_response_format) (simp add: nul_fs_def nul_response_def)
qed

text \<open>
  C2. A request whose path matches no route of the table leaves the dispatcher with the
  response 404 "Not Found", empty content and content_length 0, and that response is
  what is sent.
\<close>

theorem unmatched_path_404:
  assumes "\<forall>m\<in>set getRouteMappings. strncmp (path request) (route_path m) MAX_PATH_SIZE \<noteq> 0"
  shows "get_response fs request =
           \<lparr>status_code = 404, status_message = ''Not Found'', content_length = 0, content = []\<rparr>
         \<and> handleGetRequest fs request =
           Inr (''HTTP/1.1 404 Not Found'' @ [CR, LF]
                @ ''Content-Type: text/html;charset=UTF-8'' @ [CR, LF]
                @ ''Content-Length: 0'' @ [CR, LF, CR, LF])"
proof -
  have r: "get_response fs request =
           \<lparr>status_code = 404, status_message = ''Not Found'', content_length = 0, content = []\<rparr>"
    unfolding get_response_def using assms by (rule route_loop_no_match)
  have f: "response_format (get_response fs request) =
           ''HTTP/1.1 404 Not Found'' @ [CR, LF]
           @ ''Content-Type: text/html;charset=UTF-8'' @ [CR, LF]
           @ ''Content-Length: 0'' @ [CR, LF, CR, LF]"
    by (simp add: r response_format_def print_int_404 print_nat_0 cstr_Cons NUL_def)
  have "handleGetRequest fs request = Inr (response_format (get_response fs request))"
    by (rule handleGetRequest_sends) (simp add: f INT_MAX_def)
  with r f show ?thesis by simp
qed

theorem unmatched_path_404_witness:
  "strncmp ''/missing'' ''/'' MAX_PATH_SIZE \<noteq> 0
   \<and> strncmp ''/missing'' ''/test'' MAX_PATH_SIZE \<noteq> 0
   \<and> get_response example_fs \<lparr>method = ''GET'', path = ''/missing'', body = None, body_size = 0\<rparr> =
       \<lparr>status_code = 404, status_message = ''Not Found'', content_length = 0, content = []\<rparr>"
proof -
  have h: "\<forall>m\<in>set getRouteMappings.
      strncmp (path \<lparr>method = ''GET'', path = ''/missing'', body = None, body_size = 0\<rparr>)
        (route_path m) MAX_PATH_SIZE \<noteq> 0"
    by (simp add: getRouteMappings_def strncmp_eq_0_iff MAX_PATH_SIZE_def cstr_Cons NUL_def)
  from unmatched_path_404 [OF h, of example_fs] h show ?thesis
    by (simp add: getRouteMappings_def)
qed

text \<open>
  C3. A request whose path matches a route whose file cannot be loaded (it is missing,
  or cannot be read in full) leaves the dispatcher with the response 500
  "Internal Server Error", empty content and content_length 0, and that response is
  what is sent.
\<close>

theorem unloadable_file_500:
  assumes "m \<in> set getRouteMappings"
    and "strncmp (path request) (route_path m) MAX_PATH_SIZE = 0"
    and "ReadFile fs (route_link m) = None"
  shows "get_response fs request =
           \<lparr>status_code = 500, status_message = ''Internal Server Error'',
            content_length = 0, content = []\<rparr>
         \<and> handleGetRequest fs request =
           Inr (''HTTP/1.1 500 Internal Server Error'' @ [CR, LF]
                @ ''Content-Type: text/html;charset=UTF-8'' @ [CR, LF]
                @ ''Content-Length: 0'' @ [CR, LF, CR, LF])"
proof -
  have r: "get_response fs request =
           \<lparr>status_code = 500, status_message = ''Internal Server Error'',
            content_length = 0, content = []\<rparr>"
    unfolding get_response_def using assms by (simp add: route_loop_table)
  have f: "response_format (get_response fs request) =
           ''HTTP/1.1 500 Internal Server Error'' @ [CR, LF]
           @ ''Content-Type: text/html;charset=UTF-8'' @ [CR, LF]
           @ ''Content-Length: 0'' @ [CR, LF, CR, LF]"
    by (simp add: r response_format_def print_int_500 print_nat_0 cstr_Cons NUL_def)
  have "handleGetRequest fs request = Inr (response_format (get_response fs request))"
    by (rule handleGetRequest_sends) (simp add: f INT_MAX_def)
  with r f show ?thesis by simp
qed

theorem unloadable_file_500_witness:
  "\<lparr>route_path = ''/test'', route_link = ''./public_html/test.html''\<rparr> \<in> set getRouteMappings
   \<and> strncmp ''/test'' ''/test'' MAX_PATH_SIZE = 0
   \<and> ReadFile example_fs ''./public_html/test.html'' = None
   \<and> get_response example_fs \<lparr>method = ''GET'', path = ''/test'', body = None, body_size = 0\<rparr> =
       \<lparr>status_code = 500, status_message = ''Internal Server Error'',
        content_length = 0, content = []\<rparr>
   \<and> handleGetRequest example_fs \<lparr>method = ''GET'', path = ''/test'', body = None, body_size = 0\<rparr> =
       Inr (''HTTP/1.1 500 Internal Server Error'' @ [CR, LF]
            @ ''Content-Type: text/html;charset=UTF-8'' @ [CR, LF]
            @ ''Content-Length: 0'' @ [CR, LF, CR, LF])"
proof -
  have a: "\<lparr>route_path = ''/test'', route_link = ''./public_html/test.html''\<rparr> \<in> set getRouteMappings"
    by (simp add: getRouteMappings_def)
  have b: "strncmp (path \<lparr>method = ''GET'', path = ''/test'', body = None, body_size = 0\<rparr>)
             (route_path \<lparr>route_path = ''/test'', route_link = ''./public_html/test.html''\<rparr>)
             MAX_PATH_SIZE = 0"
    by (simp add: strncmp_eq_0_iff)
  have c: "ReadFile example_fs (route_link \<lparr>route_path = ''/test'', route_link = ''./public_html/test.html''\<rparr>) = None"
    by (simp add: ReadFile_def example_fs_def)
  from unloadable_file_500 [OF a b c] a b c show ?thesis by simp
qed

section \<open>The parser on concrete buffers\<close>

lemmas parse_eval = parseHttpRequest_def cstr_def NUL_def CR_def LF_def SP_def
  method_path_tokens_def strtok_def strncpy_def MAX_METHOD_SIZE_def MAX_PATH_SIZE_def
  sscanf_content_length_def scan_sign_digits_def isspace_def isdigit_def decimal_def
  digit_val_def SIZE_MAX_def sizeof_body_def Let_def

lemma parse_single_token:
  "parseHttpRequest (Some ''GET'') =
     Inr (Some \<lparr>method = [], path = [], body = None, body_size = 0\<rparr>)"
  by (simp add: parse_eval)

lemma parse_header_without_separator:
  "parseHttpRequest (Some (''POST / HTTP/1.1'' @ [CR, LF] @ ''Content-Length: 12'' @ [CR, LF])) =
     Inr (Some \<lparr>method = ''POST'', path = ''/'', body = None, body_size = 12\<rparr>)"
  by (simp add: parse_eval)

text \<open>
  C4. The parser is to return "no request" when the method and path tokens cannot be
  extracted. On the empty buffer, which has no token, the code returns a request, with
  every field zero.
\<close>

theorem parse_empty_buffer:
  "parseHttpRequest (Some []) =
     Inr (Some \<lparr>method = [], path = [], body = None, body_size = 0\<rparr>)"
  by (simp add: parse_eval)

text \<open>
  C5. A request with the header \<open>Content-Length: 5\<close>, the blank line and the body
  \<open>hello\<close> is to parse to a body of these five bytes. The code copies the body through
  \<open>http->body\<close>, which is NULL.
\<close>

theorem parse_content_length_hello:
  "parseHttpRequest
     (Some (''POST / HTTP/1.1'' @ [CR, LF] @ ''Content-Length: 5'' @ [CR, LF, CR, LF] @ ''hello''))
   = Inl NullDereference"
  by (simp add: parse_eval)

text \<open>
  C6. A request whose Content-Length value is malformed is to parse without fault to an
  empty body. With the blank line present the code still writes the terminator through
  \<open>http->body\<close>, which is NULL.
\<close>

theorem parse_malformed_content_length:
  "parseHttpRequest
     (Some (''POST / HTTP/1.1'' @ [CR, LF] @ ''Content-Length: abc'' @ [CR, LF, CR, LF] @ ''hello''))
   = Inl NullDereference"
  by (simp add: parse_eval)

section \<open>Method dispatch\<close>

lemma index_response:
  "get_response example_fs \<lparr>method = mt, path = ''/'', body = None, body_size = 0\<rparr> =
     \<lparr>status_code = 200, status_message = ''OK'',
      content_length = 17, content = ''<h1>It works</h1>''\<rparr>"
  by (simp add: get_response_def getRouteMappings_def strncmp_eq_0_iff ReadFile_def
      example_fs_def Let_def)

text \<open>The GET logic runs exactly for the methods whose first three bytes are \<open>GET\<close>.\<close>

lemma unsupported_iff:
  "(\<exists>m. handleHttpRequest fs (Some r) = Inr (Unsupported_method m))
   \<longleftrightarrow> take 3 (cstr (method r)) \<noteq> ''GET''"
  by (auto simp: handleHttpRequest_def strncmp_eq_0_iff cstr_def NUL_def handleGetRequest_def
      split: option.splits)

text \<open>
  C8. A method other than \<open>GET\<close> is to be reported as unsupported, with nothing sent.
  The method \<open>GETX\<close> is handed to the GET logic and the index page is sent.
\<close>

theorem getx_is_dispatched:
  "serve_connection example_fs (''GETX / HTTP/1.1'' @ [CR, LF, CR, LF]) =
     Inr (Responded (''HTTP/1.1 200 OK'' @ [CR, LF]
                @ ''Content-Type: text/html;charset=UTF-8'' @ [CR, LF]
                @ ''Content-Length: 17'' @ [CR, LF, CR, LF] @ ''<h1>It works</h1>''))"
proof -
  have p: "parseHttpRequest (Some (''GETX / HTTP/1.1'' @ [CR, LF, CR, LF])) =
           Inr (Some \<lparr>method = ''GETX'', path = ''/'', body = None, body_size = 0\<rparr>)"
    by (simp add: parse_eval)
  have m: "strncmp ''GETX'' ''GET'' 3 = 0"
    by (simp add: strncmp_eq_0_iff cstr_def NUL_def)
  have g: "handleGetRequest example_fs \<lparr>method = ''GETX'', path = ''/'', body = None, body_size = 0\<rparr> =
           Inr (''HTTP/1.1 200 OK'' @ [CR, LF]
                @ ''Content-Type: text/html;charset=UTF-8'' @ [CR, LF]
                @ ''Content-Length: 17'' @ [CR, LF, CR, LF] @ ''<h1>It works</h1>'')"
    using handleGetRequest_sends
            [of example_fs "\<lparr>method = ''GETX'', path = ''/'', body = None, body_size = 0\<rparr>"]
    by (simp add: index_response response_format_def INT_MAX_def print_int_200 print_nat_17
        cstr_def NUL_def)
  show ?thesis
    unfolding serve_connection_def p by (simp add: handleHttpRequest_def m g)
qed

section \<open>The port check\<close>

lemma atoi_65537: "atoi ''65537'' = 65537"
  by (simp add: atoi_def strtol_def scan_sign_digits_def isspace_def isdigit_def decimal_def
        digit_val_def LONG_MAX_def SP_def)

lemma port_wraps: "(65537 :: 16 word) = 1"
  by simp

text \<open>What the code does check: the port after its conversion to \<open>unsigned short\<close>.\<close>

lemma main_exit_failure:
  "length argv \<noteq> 3 \<or> inet_pton pf (argv ! 1) = None
     \<or> (word_of_int (atoi (argv ! 2)) :: 16 word) = 0
     \<or> (word_of_int (atoi (argv ! 2)) :: 16 word) > 65534
   \<Longrightarrow> main pf argv = Returns EXIT_FAILURE"
  by (auto simp: main_def Let_def split: option.splits)

text \<open>
  C9. A port argument whose value lies outside (0, 65534] is to end the process with
  exit code 1. The argument \<open>65537\<close> has the value 65537, yet \<open>main\<close> starts the server,
  on port 1.
\<close>

theorem port_65537_accepted:
  "atoi ''65537'' = 65537
   \<and> main example_platform [''server'', ''127.0.0.1'', ''65537''] =
       Serves_forever 0x0100007F (htons 1)"
  by (simp add: atoi_65537 main_def example_platform_def startHttpServer_def Let_def port_wraps)

section \<open>Truncation of method and path\<close>

lemma strtok_token:
  assumes "tok \<noteq> []" and "delim \<notin> set tok"
  shows "strtok (tok @ delim # rest) delim = Some (tok, rest)"
proof -
  obtain c cs where tok: "tok = c # cs" using assms(1) by (cases tok) auto
  with assms(2) have "c \<noteq> delim" by auto
  then have d: "dropWhile (\<lambda>c. c = delim) (tok @ delim # rest) = tok @ delim # rest"
    by (simp add: tok)
  have t: "takeWhile (\<lambda>c. c \<noteq> delim) (tok @ delim # rest) = tok"
    using assms(2) by (subst takeWhile_append2) auto
  have r: "dropWhile (\<lambda>c. c \<noteq> delim) (tok @ delim # rest) = delim # rest"
    using assms(2) by (subst dropWhile_append2) auto
  show ?thesis
    unfolding strtok_def Let_def d t r using assms(1) by simp
qed

lemma route_loop_path_cong:
  "path r1 = path r2 \<Longrightarrow> route_loop fs r1 ms response = route_loop fs r2 ms response"
  by (induction ms arbitrary: response) auto

lemma get_response_path_cong:
  "path r1 = path r2 \<Longrightarrow> get_response fs r1 = get_response fs r2"
  unfolding get_response_def by (rule route_loop_path_cong)

lemma handleGetRequest_path_cong:
  "path r1 = path r2 \<Longrightarrow> handleGetRequest fs r1 = handleGetRequest fs r2"
  using get_response_path_cong [of r1 r2 fs] by (simp add: handleGetRequest_def)

lemma parse_cases:
  assumes "method_path_tokens (cstr raw) = (Some method_tok, Some path_tok)"
  shows "parseHttpRequest (Some raw) = Inl NullDereference
         \<or> (\<exists>n. parseHttpRequest (Some raw) =
               Inr (Some \<lparr>method = take 9 method_tok, path = take 99 path_tok,
                          body = None, body_size = n\<rparr>))"
proof (cases "strstr (cstr raw) ''Content-Length:''")
  case None
  then show ?thesis
    by (simp add: parseHttpRequest_def assms Let_def strncpy_def MAX_METHOD_SIZE_def
        MAX_PATH_SIZE_def)
next
  case (Some start)
  show ?thesis
  proof (cases "strstr (cstr raw) [CR, LF, CR, LF]")
    case sep: (Some a)
    show ?thesis
      by (cases "sscanf_content_length start")
        (simp_all add: parseHttpRequest_def assms Let_def Some sep)
  next
    case None
    show ?thesis
      by (cases "sscanf_content_length start")
        (simp_all add: parseHttpRequest_def assms Let_def Some None strncpy_def
          MAX_METHOD_SIZE_def MAX_PATH_SIZE_def)
  qed
qed

lemma parsed_fields:
  assumes "method_path_tokens (cstr raw) = (Some method_tok, Some path_tok)"
    and "parseHttpRequest (Some raw) = Inr (Some http)"
  shows "method http = take 9 method_tok \<and> path http = take 99 path_tok"
  using parse_cases [OF assms(1)] assms(2) by auto

text \<open>With both tokens present, the parser faults exactly when both the header name and
  the separator occur in the request; otherwise it returns a request.\<close>

lemma parse_fault_iff:
  assumes "method_path_tokens (cstr raw) = (Some method_tok, Some path_tok)"
  shows "parseHttpRequest (Some raw) = Inl NullDereference \<longleftrightarrow>
         strstr (cstr raw) ''Content-Length:'' \<noteq> None \<and> strstr (cstr raw) [CR, LF, CR, LF] \<noteq> None"
proof (cases "strstr (cstr raw) ''Content-Length:''")
  case None
  then show ?thesis
    by (simp add: parseHttpRequest_def assms Let_def)
next
  case (Some start)
  show ?thesis
    by (cases "strstr (cstr raw) [CR, LF, CR, LF]"; cases "sscanf_content_length start")
      (simp_all add: parseHttpRequest_def assms Let_def Some)
qed

lemma parse_returns_request:
  assumes "method_path_tokens (cstr raw) = (Some method_tok, Some path_tok)"
    and "strstr (cstr raw) ''Content-Length:'' = None \<or> strstr (cstr raw) [CR, LF, CR, LF] = None"
  shows "\<exists>http. parseHttpRequest (Some raw) = Inr (Some http) \<and> body http = None"
  using parse_cases [OF assms(1)] parse_fault_iff [OF assms(1)] assms(2) by auto

lemma take_no_NUL: "NUL \<notin> set s \<Longrightarrow> NUL \<notin> set (take n s)"
  by (auto dest: in_set_takeD)

lemma strtok_no_NUL:
  assumes "strtok s d = Some (tok, rest)" and "NUL \<notin> set s"
  shows "NUL \<notin> set tok \<and> NUL \<notin> set rest"
proof -
  let ?s1 = "dropWhile (\<lambda>c. c = d) s"
  have tok: "tok = takeWhile (\<lambda>c. c \<noteq> d) ?s1"
    and rest: "rest = drop 1 (dropWhile (\<lambda>c. c \<noteq> d) ?s1)"
    using assms(1) by (auto simp: strtok_def Let_def split: if_splits)
  have "set ?s1 \<subseteq> set s" by (meson set_dropWhileD subsetI)
  moreover have "set tok \<subseteq> set ?s1" unfolding tok by (meson set_takeWhileD subsetI)
  moreover have "set rest \<subseteq> set ?s1"
    unfolding rest by (meson in_set_dropD set_dropWhileD subsetI)
  ultimately show ?thesis using assms(2) by blast
qed

lemma tokens_no_NUL:
  assumes "method_path_tokens (cstr raw) = (Some method_tok, Some path_tok)"
  shows "NUL \<notin> set method_tok \<and> NUL \<notin> set path_tok"
proof -
  from assms obtain rest rest' where
    1: "strtok (cstr raw) SP = Some (method_tok, rest)" and 2: "strtok rest SP = Some (path_tok, rest')"
    by (auto simp: method_path_tokens_def split: option.splits)
  from strtok_no_NUL [OF 1 NUL_notin_cstr] have "NUL \<notin> set method_tok" "NUL \<notin> set rest" by auto
  with strtok_no_NUL [OF 2] show ?thesis by auto
qed

text \<open>
  C10. When both tokens are extracted and the parser returns a request, its method is the
  first 9 bytes of the method token and its path the first 99 bytes of the path token,
  both short enough for the terminator and free of NUL; and a second request whose path
  token agrees on the first 99 bytes gets the same response from the dispatcher.
\<close>

theorem parsed_fields_truncated:
  assumes "method_path_tokens (cstr raw) = (Some method_tok, Some path_tok)"
    and "parseHttpRequest (Some raw) = Inr (Some http)"
  shows "method http = take 9 method_tok \<and> path http = take 99 path_tok
         \<and> length (method http) < MAX_METHOD_SIZE \<and> length (path http) < MAX_PATH_SIZE
         \<and> NUL \<notin> set (method http) \<and> NUL \<notin> set (path http)
         \<and> (\<forall>raw' method_tok' path_tok' http'.
               method_path_tokens (cstr raw') = (Some method_tok', Some path_tok')
               \<and> parseHttpRequest (Some raw') = Inr (Some http')
               \<and> take 99 path_tok' = take 99 path_tok
               \<longrightarrow> get_response fs http' = get_response fs http
                   \<and> handleGetRequest fs http' = handleGetRequest fs http)"
proof -
  have f: "method http = take 9 method_tok \<and> path http = take 99 path_tok"
    using assms by (rule parsed_fields)
  have l: "length (method http) < MAX_METHOD_SIZE \<and> length (path http) < MAX_PATH_SIZE"
    using f by (auto simp: MAX_METHOD_SIZE_def MAX_PATH_SIZE_def)
  have n: "NUL \<notin> set (method http) \<and> NUL \<notin> set (path http)"
    using f tokens_no_NUL [OF assms(1)] by (simp add: take_no_NUL)
  have r: "get_response fs http' = get_response fs http
           \<and> handleGetRequest fs http' = handleGetRequest fs http"
    if "method_path_tokens (cstr raw') = (Some method_tok', Some path_tok')"
      and "parseHttpRequest (Some raw') = Inr (Some http')"
      and "take 99 path_tok' = take 99 path_tok"
    for raw' method_tok' path_tok' http'
  proof -
    from parsed_fields [OF that(1,2)] f that(3) have "path http' = path http" by simp
    then show ?thesis
      using get_response_path_cong [of http' http fs]
        handleGetRequest_path_cong [of http' http fs] by simp
  qed
  from f l n r show ?thesis by blast
qed

lemma tokens_b:
  "method_path_tokens (cstr long_request_b) =
     (Some ''GETTYSBURG'', Some (CHR ''/'' # replicate 98 (CHR ''a'') @ ''b''))"
proof -
  have c: "cstr long_request_b = long_request_b"
    by (rule cstr_no_NUL) (auto simp: long_request_b_def NUL_def CR_def LF_def)
  have 1: "strtok long_request_b SP =
           Some (''GETTYSBURG'', (CHR ''/'' # replicate 98 (CHR ''a'') @ ''b'') @ SP # (''HTTP/1.1'' @ [CR, LF, CR, LF]))"
    using strtok_token [of "''GETTYSBURG''" SP "(CHR ''/'' # replicate 98 (CHR ''a'') @ ''b'') @ SP # (''HTTP/1.1'' @ [CR, LF, CR, LF])"]
    by (simp add: long_request_b_def SP_def)
  have 2: "strtok ((CHR ''/'' # replicate 98 (CHR ''a'') @ ''b'') @ SP # (''HTTP/1.1'' @ [CR, LF, CR, LF])) SP
           = Some (CHR ''/'' # replicate 98 (CHR ''a'') @ ''b'', ''HTTP/1.1'' @ [CR, LF, CR, LF])"
    by (rule strtok_token) (auto simp: SP_def)
  show ?thesis
    unfolding method_path_tokens_def c 1 option.case prod.case 2 by simp
qed


lemma tokens_c:
  "method_path_tokens (cstr long_request_c) =
     (Some ''GET'', Some (CHR ''/'' # replicate 98 (CHR ''a'') @ ''c''))"
proof -
  have c: "cstr long_request_c = long_request_c"
    by (rule cstr_no_NUL) (auto simp: long_request_c_def NUL_def CR_def LF_def)
  have 1: "strtok long_request_c SP =
           Some (''GET'', (CHR ''/'' # replicate 98 (CHR ''a'') @ ''c'') @ SP # (''HTTP/1.1'' @ [CR, LF, CR, LF]))"
    using strtok_token [of "''GET''" SP "(CHR ''/'' # replicate 98 (CHR ''a'') @ ''c'') @ SP # (''HTTP/1.1'' @ [CR, LF, CR, LF])"]
    by (simp add: long_request_c_def SP_def)
  have 2: "strtok ((CHR ''/'' # replicate 98 (CHR ''a'') @ ''c'') @ SP # (''HTTP/1.1'' @ [CR, LF, CR, LF])) SP
           = Some (CHR ''/'' # replicate 98 (CHR ''a'') @ ''c'', ''HTTP/1.1'' @ [CR, LF, CR, LF])"
    by (rule strtok_token) (auto simp: SP_def)
  show ?thesis
    unfolding method_path_tokens_def c 1 option.case prod.case 2 by simp
qed

lemma strstr_skip:
  "needle \<noteq> [] \<Longrightarrow> hd needle \<notin> set xs \<Longrightarrow> strstr (xs @ ys) needle = strstr ys needle"
  by (induction xs) (auto simp: prefix_Cons neq_Nil_conv)

lemma strstr_absent:
  "needle \<noteq> [] \<Longrightarrow> hd needle \<notin> set hay \<Longrightarrow> strstr hay needle = None"
  using strstr_skip [of needle hay "[]"] by simp

lemma no_header_b: "strstr (cstr long_request_b) ''Content-Length:'' = None"
  by (rule strstr_absent) (auto simp: long_request_b_def CR_def LF_def dest!: set_takeWhileD simp: cstr_def)

lemma no_header_c: "strstr (cstr long_request_c) ''Content-Length:'' = None"
  by (rule strstr_absent) (auto simp: long_request_c_def CR_def LF_def dest!: set_takeWhileD simp: cstr_def)

lemma parse_long_b:
  "parseHttpRequest (Some long_request_b) =
     Inr (Some \<lparr>method = ''GETTYSBUR'', path = CHR ''/'' # replicate 98 (CHR ''a''),
                body = None, body_size = 0\<rparr>)"
  by (simp add: parseHttpRequest_def tokens_b no_header_b Let_def strncpy_def
      MAX_METHOD_SIZE_def MAX_PATH_SIZE_def)

lemma parse_long_c:
  "parseHttpRequest (Some long_request_c) =
     Inr (Some \<lparr>method = ''GET'', path = CHR ''/'' # replicate 98 (CHR ''a''),
                body = None, body_size = 0\<rparr>)"
  by (simp add: parseHttpRequest_def tokens_c no_header_c Let_def strncpy_def
      MAX_METHOD_SIZE_def MAX_PATH_SIZE_def)

theorem parsed_fields_truncated_witness:
  "method_path_tokens (cstr long_request_b) =
     (Some ''GETTYSBURG'', Some (CHR ''/'' # replicate 98 (CHR ''a'') @ ''b''))
   \<and> method_path_tokens (cstr long_request_c) =
     (Some ''GET'', Some (CHR ''/'' # replicate 98 (CHR ''a'') @ ''c''))
   \<and> parseHttpRequest (Some long_request_b) =
     Inr (Some \<lparr>method = ''GETTYSBUR'', path = CHR ''/'' # replicate 98 (CHR ''a''),
                body = None, body_size = 0\<rparr>)
   \<and> parseHttpRequest (Some long_request_c) =
     Inr (Some \<lparr>method = ''GET'', path = CHR ''/'' # replicate 98 (CHR ''a''),
                body = None, body_size = 0\<rparr>)
   \<and> handleGetRequest example_fs
         \<lparr>method = ''GET'', path = CHR ''/'' # replicate 98 (CHR ''a''), body = None, body_size = 0\<rparr>
     = handleGetRequest example_fs
         \<lparr>method = ''GETTYSBUR'', path = CHR ''/'' # replicate 98 (CHR ''a''), body = None, body_size = 0\<rparr>"
proof -
  have t: "take 99 (CHR ''/'' # replicate 98 (CHR ''a'') @ ''c'') =
           take 99 (CHR ''/'' # replicate 98 (CHR ''a'') @ ''b'')"
    by simp
  from parsed_fields_truncated [OF tokens_b parse_long_b, of example_fs]
  have "\<forall>raw' method_tok' path_tok' http'.
               method_path_tokens (cstr raw') = (Some method_tok', Some path_tok')
               \<and> parseHttpRequest (Some raw') = Inr (Some http')
               \<and> take 99 path_tok' = take 99 (CHR ''/'' # replicate 98 (CHR ''a'') @ ''b'')
               \<longrightarrow> handleGetRequest example_fs http' = handleGetRequest example_fs
         \<lparr>method = ''GETTYSBUR'', path = CHR ''/'' # replicate 98 (CHR ''a''), body = None, body_size = 0\<rparr>"
    by blast
  with tokens_c parse_long_c t
  have "handleGetRequest example_fs
         \<lparr>method = ''GET'', path = CHR ''/'' # replicate 98 (CHR ''a''), body = None, body_size = 0\<rparr>
     = handleGetRequest example_fs
         \<lparr>method = ''GETTYSBUR'', path = CHR ''/'' # replicate 98 (CHR ''a''), body = None, body_size = 0\<rparr>"
    by blast
  with tokens_b tokens_c parse_long_b parse_long_c show ?thesis by blast
qed

section \<open>Printing and reading decimal numbers\<close>

lemma digit_char_code: "d < 10 \<Longrightarrow> of_char (digit_char d) = 48 + d"
  by (simp add: digit_char_def)

lemma isdigit_digit_char: "d < 10 \<Longrightarrow> isdigit (digit_char d)"
  by (simp add: isdigit_def digit_char_code)

lemma digit_val_digit_char: "d < 10 \<Longrightarrow> digit_val (digit_char d) = d"
  by (simp add: digit_val_def digit_char_code)

lemma print_nat_digits: "c \<in> set (print_nat n) \<Longrightarrow> isdigit c"
proof (induction n rule: print_nat.induct)
  case (1 n)
  show ?case
  proof (cases "n < 10")
    case True
    with "1.prems" show ?thesis
      by (simp add: print_nat.simps [of n] isdigit_digit_char)
  next
    case False
    with "1.prems" "1.IH" show ?thesis
      by (auto simp: print_nat.simps [of n] isdigit_digit_char)
  qed
qed

lemma print_nat_nonempty: "print_nat n \<noteq> []"
  by (subst print_nat.simps) simp

lemma decimal_snoc: "decimal (ds @ [c]) = decimal ds * 10 + digit_val c"
  by (simp add: decimal_def)

lemma decimal_print_nat: "decimal (print_nat n) = n"
proof (induction n rule: print_nat.induct)
  case (1 n)
  show ?case
  proof (cases "n < 10")
    case True
    then show ?thesis
      by (simp add: print_nat.simps [of n] decimal_def digit_val_digit_char)
  next
    case False
    with "1.IH" show ?thesis
      by (simp add: print_nat.simps [of n] decimal_snoc digit_val_digit_char)
  qed
qed

lemma isdigit_chars:
  "isdigit c \<Longrightarrow> c \<noteq> CR \<and> c \<noteq> SP \<and> c \<noteq> CHR ''-'' \<and> c \<noteq> CHR ''+'' \<and> c \<noteq> CHR ''C'' \<and> \<not> isspace c"
  by (auto simp: isdigit_def isspace_def CR_def SP_def)

lemma print_int_chars:
  assumes "c \<in> set (print_int i)"
  shows "c \<noteq> CR \<and> c \<noteq> CHR ''C''"
proof -
  from assms have "c = CHR ''-'' \<or> isdigit c"
    by (auto simp: print_int_def dest: print_nat_digits split: if_splits)
  then show ?thesis
    using isdigit_chars [of c] by (auto simp: CR_def)
qed

text \<open>Reading back a printed length that is followed by a line break.\<close>

lemma sscanf_printed_length:
  assumes "n \<le> SIZE_MAX"
  shows "sscanf_content_length (''Content-Length: '' @ print_nat n @ CR # rest) = Some n"
proof -
  obtain d ds where p: "print_nat n = d # ds"
    using print_nat_nonempty [of n] by (cases "print_nat n") auto
  have d: "isdigit d" using print_nat_digits [of d n] p by simp
  have all: "\<forall>c\<in>set (print_nat n). isdigit c" using print_nat_digits by blast
  have t: "takeWhile isdigit (print_nat n @ CR # rest) = print_nat n"
    using all by (subst takeWhile_append2) (auto simp: isdigit_def CR_def)
  have sp: "isspace SP" by (simp add: isspace_def)
  have "dropWhile isspace (SP # print_nat n @ CR # rest) = d # ds @ CR # rest"
    using sp isdigit_chars [OF d] by (simp add: p)
  then have "scan_sign_digits (SP # print_nat n @ CR # rest) =
             (False, takeWhile isdigit (d # ds @ CR # rest))"
    using isdigit_chars [OF d] by (simp add: scan_sign_digits_def)
  also have "takeWhile isdigit (d # ds @ CR # rest) = print_nat n"
    using t by (simp add: p)
  finally have "scan_sign_digits (SP # print_nat n @ CR # rest) = (False, print_nat n)" .
  then show ?thesis
    using assms print_nat_nonempty [of n]
    by (simp add: sscanf_content_length_def SP_def decimal_print_nat)
qed

section \<open>Searching behind a prefix\<close>

lemma strstr_skip_positions:
  "\<forall>i<length xs. \<not> prefix needle (drop i xs @ ys) \<Longrightarrow>
   strstr (xs @ ys) needle = strstr ys needle"
proof (induction xs)
  case Nil
  then show ?case by simp
next
  case (Cons x xs)
  from Cons.prems have "\<not> prefix needle (x # xs @ ys)" by force
  moreover have "\<forall>i<length xs. \<not> prefix needle (drop i xs @ ys)"
    using Cons.prems by force
  ultimately show ?case using Cons.IH by simp
qed

lemma strstr_found: "prefix needle hay \<Longrightarrow> strstr hay needle = Some hay"
  by (cases hay) auto

lemma prefix_drop_sublist: "prefix needle (drop i xs) \<Longrightarrow> sublist needle xs"
proof -
  assume "prefix needle (drop i xs)"
  then obtain ss where "drop i xs = needle @ ss" by (auto simp: prefix_def)
  then have "xs = take i xs @ needle @ ss" by (metis append_take_drop_id)
  then show ?thesis unfolding sublist_def by blast
qed

text \<open>A needle that does not occur in \<open>xs\<close> and cannot straddle the end of \<open>xs\<close> is
  searched for behind \<open>xs\<close>.\<close>

lemma strstr_skip_sublist:
  assumes "\<not> sublist needle xs" and "ys \<noteq> []" and "hd ys \<notin> set needle"
  shows "strstr (xs @ ys) needle = strstr ys needle"
proof (rule strstr_skip_positions, intro allI impI notI)
  fix i
  assume "i < length xs" and pre: "prefix needle (drop i xs @ ys)"
  have inner: "\<not> prefix needle (drop i xs)"
    using assms(1) by (auto dest: prefix_drop_sublist)
  with pre obtain us where us: "needle = drop i xs @ us" "prefix us ys" "us \<noteq> []"
    by (auto simp: prefix_append)
  then have "hd us = hd ys" using assms(2) by (cases us; cases ys) auto
  moreover have "hd us \<in> set needle" using us by (cases us) auto
  ultimately show False using assms(3) by simp
qed

text \<open>The blank line cannot begin inside a status message that neither holds a blank
  line nor ends in a line break.\<close>

lemma suffix_drop_self: "suffix (drop i m) m"
  by (metis append_take_drop_id suffixI)

lemma separator_not_in_message:
  assumes "\<not> sublist [CR, LF, CR, LF] m" and "\<not> suffix [CR, LF] m" and "c \<noteq> CR"
  shows "strstr (m @ CR # LF # c # rest) [CR, LF, CR, LF] = strstr (CR # LF # c # rest) [CR, LF, CR, LF]"
proof (rule strstr_skip_positions, intro allI impI notI)
  fix i
  assume i: "i < length m" and pre: "prefix [CR, LF, CR, LF] (drop i m @ CR # LF # c # rest)"
  have ne: "CR \<noteq> LF" by (simp add: CR_def LF_def)
  obtain a as where d: "drop i m = a # as" using i by (cases "drop i m") auto
  show False
  proof (cases as)
    case Nil
    with pre d ne show False by simp
  next
    case as: (Cons b bs)
    show False
    proof (cases bs)
      case Nil
      with pre d as have "drop i m = [CR, LF]" by simp
      with suffix_drop_self [of i m] assms(2) show False by simp
    next
      case bs: (Cons c' cs)
      show False
      proof (cases cs)
        case Nil
        with pre d as bs ne assms(3) show False by simp
      next
        case (Cons e es)
        with pre d as bs have "prefix [CR, LF, CR, LF] (drop i m)" by simp
        with assms(1) show False by (auto dest: prefix_drop_sublist)
      qed
    qed
  qed
qed

section \<open>The round trip\<close>

lemma roundtrip_needs_serialisation:
  "INT_MAX \<le> length (response_format r) \<Longrightarrow> \<not> content_length_roundtrip r"
  by (simp add: content_length_roundtrip_def not_serialised)

lemma locate_header:
  assumes "\<not> sublist ''Content-Length:'' (cstr (status_message r))"
  shows "strstr (response_format r) ''Content-Length:'' =
           Some (''Content-Length: '' @ print_nat (content_length r) @ CR # LF # CR # LF # cstr (content r))"
proof -
  let ?T = "''Content-Length: '' @ print_nat (content_length r) @ CR # LF # CR # LF # cstr (content r)"
  let ?H = "CR # LF # ''Content-Type: text/html;charset=UTF-8'' @ CR # LF # ?T"
  let ?P = "''HTTP/1.1 '' @ print_int (status_code r) @ '' ''"
  have f: "response_format r = ?P @ cstr (status_message r) @ ?H"
    by (simp add: response_format_def)
  have "strstr (?P @ cstr (status_message r) @ ?H) ''Content-Length:'' =
        strstr (cstr (status_message r) @ ?H) ''Content-Length:''"
    by (rule strstr_skip) (auto dest: print_int_chars)
  also have "\<dots> = strstr ?H ''Content-Length:''"
    using assms by (rule strstr_skip_sublist) (auto simp: CR_def)
  also have "\<dots> = Some ?T"
    by (simp add: CR_def LF_def)
  finally show ?thesis by (simp only: f)
qed

lemma locate_separator:
  assumes "\<not> sublist [CR, LF, CR, LF] (cstr (status_message r))"
    and "\<not> suffix [CR, LF] (cstr (status_message r))"
  shows "strstr (response_format r) [CR, LF, CR, LF] = Some (CR # LF # CR # LF # cstr (content r))"
proof -
  let ?B = "CR # LF # CR # LF # cstr (content r)"
  let ?R = "''ontent-Type: text/html;charset=UTF-8'' @ CR # LF # ''Content-Length: ''
            @ print_nat (content_length r) @ ?B"
  let ?P = "''HTTP/1.1 '' @ print_int (status_code r) @ '' ''"
  have ne: "CHR ''C'' \<noteq> CR" "CR \<noteq> LF" by (simp_all add: CR_def LF_def)
  have f: "response_format r = ?P @ cstr (status_message r) @ CR # LF # CHR ''C'' # ?R"
    by (simp add: response_format_def)
  have "strstr (?P @ cstr (status_message r) @ CR # LF # CHR ''C'' # ?R) [CR, LF, CR, LF] =
        strstr (cstr (status_message r) @ CR # LF # CHR ''C'' # ?R) [CR, LF, CR, LF]"
    by (rule strstr_skip) (auto simp: CR_def dest: print_int_chars)
  also have "\<dots> = strstr (CR # LF # CHR ''C'' # ?R) [CR, LF, CR, LF]"
    using assms ne(1) by (rule separator_not_in_message)
  also have "\<dots> = strstr (print_nat (content_length r) @ ?B) [CR, LF, CR, LF]"
    by (simp add: CR_def LF_def)
  also have "\<dots> = strstr ?B [CR, LF, CR, LF]"
    by (rule strstr_skip) (auto dest: print_nat_digits isdigit_chars)
  also have "\<dots> = Some ?B"
    by (rule strstr_found) simp
  finally show ?thesis by (simp only: f)
qed

text \<open>
  Where the round trip does hold: for a response whose content_length is the length of
  its content, whose content has no NUL byte, whose status message neither holds a blank
  line, nor ends in a line break, nor holds the text \<open>Content-Length:\<close>, and whose
  serialised form is shorter than \<open>INT_MAX\<close> bytes.
\<close>

lemma content_length_roundtrip_text:
  assumes "content_length r = length (content r)"
    and "NUL \<notin> set (content r)"
    and "\<not> sublist [CR, LF, CR, LF] (cstr (status_message r))"
    and "\<not> suffix [CR, LF] (cstr (status_message r))"
    and "\<not> sublist ''Content-Length:'' (cstr (status_message r))"
    and "length (response_format r) < INT_MAX"
  shows "content_length_roundtrip r"
proof -
  have body: "cstr (content r) = content r"
    using assms(2) by (rule cstr_no_NUL)
  have "length (content r) \<le> length (response_format r)"
    by (simp add: response_format_def body)
  with assms(1,6) have n: "content_length r \<le> SIZE_MAX"
    by (simp add: INT_MAX_def SIZE_MAX_def)
  have s: "HttpResponseToString r = Some (response_format r, int (length (response_format r)))"
    using assms(6) by (rule serialised)
  have a: "reparse_content_length (response_format r) = Some (content_length r)"
    unfolding reparse_content_length_def locate_header [OF assms(5)]
    using sscanf_printed_length [OF n] by simp
  have b: "content_portion (response_format r) = Some (content r)"
    unfolding content_portion_def locate_separator [OF assms(3,4)]
    by (simp add: body)
  show ?thesis
    unfolding content_length_roundtrip_def s by (simp add: a b assms(1))
qed

text \<open>A status message with a line break inside it is no obstacle.\<close>

lemma inner_line_break_roundtrip:
  "content_length_roundtrip
     \<lparr>status_code = 200, status_message = ''a'' @ [CR, LF] @ ''b'', content_length = 0,
      content = []\<rparr>"
proof (rule content_length_roundtrip_text)
  let ?r = "\<lparr>status_code = 200, status_message = ''a'' @ [CR, LF] @ ''b'', content_length = 0,
            content = []\<rparr>"
  show "content_length ?r = length (content ?r)" by simp
  show "NUL \<notin> set (content ?r)" by simp
  show "\<not> sublist [CR, LF, CR, LF] (cstr (status_message ?r))"
    by (simp add: cstr_Cons NUL_def CR_def LF_def sublist_Cons_right)
  show "\<not> suffix [CR, LF] (cstr (status_message ?r))"
    by (simp add: cstr_Cons NUL_def CR_def LF_def suffix_Cons)
  show "\<not> sublist ''Content-Length:'' (cstr (status_message ?r))"
    by (simp add: cstr_Cons NUL_def CR_def LF_def sublist_Cons_right)
  show "length (response_format ?r) < INT_MAX"
    by (simp add: response_format_def print_int_200 print_nat_0 cstr_Cons NUL_def CR_def LF_def
        INT_MAX_def)
qed

text \<open>The conditions on the status message are needed: a line break at its end opens the
  content portion early, and a \<open>Content-Length:\<close> of its own is the one read back.\<close>

lemma split_status_format:
  "response_format split_status_response =
     ''HTTP/1.1 200 OK'' @ [CR, LF, CR, LF] @ ''Content-Type: text/html;charset=UTF-8'' @ [CR, LF]
     @ ''Content-Length: 0'' @ [CR, LF, CR, LF]"
  by (simp add: response_format_def split_status_response_def print_int_200 print_nat_0
      cstr_Cons NUL_def CR_def LF_def)

lemma split_status_broken: "\<not> content_length_roundtrip split_status_response"
proof -
  have s: "HttpResponseToString split_status_response =
           Some (response_format split_status_response,
                 int (length (response_format split_status_response)))"
    by (rule serialised) (simp add: split_status_format INT_MAX_def)
  have a: "reparse_content_length (response_format split_status_response) = Some 0"
    unfolding split_status_format
    by (simp add: reparse_content_length_def parse_eval)
  have b: "content_portion (response_format split_status_response) =
           Some (''Content-Type: text/html;charset=UTF-8'' @ [CR, LF]
                 @ ''Content-Length: 0'' @ [CR, LF, CR, LF])"
    unfolding split_status_format
    by (simp add: content_portion_def CR_def LF_def)
  show ?thesis
    unfolding content_length_roundtrip_def s by (simp add: a b)
qed

lemma header_status_format:
  "response_format header_status_response =
     ''HTTP/1.1 200 Content-Length: 7'' @ [CR, LF] @ ''Content-Type: text/html;charset=UTF-8'' @ [CR, LF]
     @ ''Content-Length: 0'' @ [CR, LF, CR, LF]"
  by (simp add: response_format_def header_status_response_def print_int_200 print_nat_0
      cstr_Cons NUL_def)

lemma header_status_broken: "\<not> content_length_roundtrip header_status_response"
proof -
  have s: "HttpResponseToString header_status_response =
           Some (response_format header_status_response,
                 int (length (response_format header_status_response)))"
    by (rule serialised) (simp add: header_status_format INT_MAX_def)
  have a: "reparse_content_length (response_format header_status_response) = Some 7"
    unfolding header_status_format
    by (simp add: reparse_content_length_def parse_eval)
  have b: "content_portion (response_format header_status_response) = Some []"
    unfolding header_status_format
    by (simp add: content_portion_def CR_def LF_def)
  show ?thesis
    unfolding content_length_roundtrip_def s by (simp add: a b)
qed

text \<open>
  C7. For a response whose content_length is the byte length of its content, the
  \<open>Content-Length\<close> field read back from the serialised output is to be the byte length
  of what follows the blank line. The response built for the file \<open>A NUL B\<close> has
  content_length 3 and three bytes of content; its serialised form is 78 bytes long, the
  field read back from it is 3, and one byte follows the blank line.
\<close>

theorem nul_response_roundtrip_fails:
  "content_length nul_response = length (content nul_response)
   \<and> HttpResponseToString nul_response =
       Some (''HTTP/1.1 200 OK'' @ [CR, LF]
             @ ''Content-Type: text/html;charset=UTF-8'' @ [CR, LF]
             @ ''Content-Length: 3'' @ [CR, LF, CR, LF] @ ''A'', 78)
   \<and> reparse_content_length
         (''HTTP/1.1 200 OK'' @ [CR, LF]
          @ ''Content-Type: text/html;charset=UTF-8'' @ [CR, LF]
          @ ''Content-Length: 3'' @ [CR, LF, CR, LF] @ ''A'') = Some 3
   \<and> content_portion
         (''HTTP/1.1 200 OK'' @ [CR, LF]
          @ ''Content-Type: text/html;charset=UTF-8'' @ [CR, LF]
          @ ''Content-Length: 3'' @ [CR, LF, CR, LF] @ ''A'') = Some ''A''
   \<and> \<not> content_length_roundtrip nul_response"
proof -
  let ?out = "''HTTP/1.1 200 OK'' @ [CR, LF]
          @ ''Content-Type: text/html;charset=UTF-8'' @ [CR, LF]
          @ ''Content-Length: 3'' @ [CR, LF, CR, LF] @ ''A''"
  have i: "content_length nul_response = length (content nul_response)"
    by (simp add: nul_response_def)
  have "HttpResponseToString nul_response =
          Some (response_format nul_response, int (length (response_format nul_response)))"
    by (rule serialised) (simp add: nul_response_format INT_MAX_def)
  then have s: "HttpResponseToString nul_response = Some (?out, 78)"
    by (simp add: nul_response_format)
  have a: "reparse_content_length ?out = Some 3"
    by (simp add: reparse_content_length_def parse_eval)
  have b: "content_portion ?out = Some ''A''"
    by (simp add: content_portion_def CR_def LF_def)
  have "\<not> content_length_roundtrip nul_response"
    unfolding content_length_roundtrip_def s using a b by simp
  with i s a b show ?thesis by blast
qed

end
